theory Spec2Isabelle
  imports Complex_Main "HOL-Library.Sublist" "HOL-Library.AList" "HOL-Library.Multiset"
begin

section \<open>Values, errors and strings\<close>

text \<open>
  The result store \<open>self.results\<close> is a Python dict from task identifiers to values that
  are either the bare string \<open>"CAPTCHA_NOT_READY"\<close> or a dict with the keys \<open>"value"\<close> and
  \<open>"elapsed_time"\<close>; at start-up it is whatever \<open>json.load\<close> finds in \<open>results.json\<close>.
  The store itself and its values are therefore modelled as JSON values. A dict is an
  association list in insertion order, updated with \<open>AList.update\<close> (replace in place, else
  append), as a Python dict is. Floats are idealised as rationals.
\<close>

datatype jval =
    JNull
  | JBool bool
  | JNum rat
  | JStr string
  | JList "jval list"
  | JObj "(string \<times> jval) list"

datatype error =
    ValueError
  | OSError
  | TypeError
  | KeyError
  | IndexError
  | UnicodeDecodeError
  | UnboundLocalError
  | ExternalError

text \<open>Truthiness of \<open>request.args.get(k)\<close>: \<open>None\<close> and the empty string are falsy.\<close>

definition falsy :: "string option \<Rightarrow> bool" where
  "falsy v = (case v of None \<Rightarrow> True | Some x \<Rightarrow> x = [])"

text \<open>\<open>k in s\<close> for two strings: \<open>k\<close> occurs in \<open>s\<close> as a contiguous substring.\<close>

fun substring :: "string \<Rightarrow> string \<Rightarrow> bool" where
  "substring k [] = (k = [])"
| "substring k (c # cs) = (prefix k (c # cs) \<or> substring k cs)"

text \<open>
  \<open>k in result\<close> (line 250): substring test on a string, key membership on a dict, element
  membership on a list, and a \<open>TypeError\<close> on a value that is not a container.
\<close>

fun py_in :: "string \<Rightarrow> jval \<Rightarrow> error + bool" where
  "py_in k (JStr s) = Inr (substring k s)"
| "py_in k (JObj kvs) = Inr (k \<in> set (map fst kvs))"
| "py_in k (JList xs) = Inr (JStr k \<in> set xs)"
| "py_in k JNull = Inl TypeError"
| "py_in k (JBool b) = Inl TypeError"
| "py_in k (JNum n) = Inl TypeError"

text \<open>
  \<open>obj[k] = v\<close> and \<open>obj[k]\<close> for a string \<open>k\<close>: defined on a dict; on a list, a string,
  \<open>None\<close>, a bool or a number they raise \<open>TypeError\<close>.
\<close>

fun setitem :: "string \<Rightarrow> jval \<Rightarrow> jval \<Rightarrow> error + jval" where
  "setitem k v (JObj kvs) = Inr (JObj (AList.update k v kvs))"
| "setitem k v (JList xs) = Inl TypeError"
| "setitem k v (JStr s) = Inl TypeError"
| "setitem k v JNull = Inl TypeError"
| "setitem k v (JBool b) = Inl TypeError"
| "setitem k v (JNum n) = Inl TypeError"

fun getitem :: "string \<Rightarrow> jval \<Rightarrow> error + jval" where
  "getitem k (JObj kvs) = (case map_of kvs k of None \<Rightarrow> Inl KeyError | Some v \<Rightarrow> Inr v)"
| "getitem k (JList xs) = Inl TypeError"
| "getitem k (JStr s) = Inl TypeError"
| "getitem k JNull = Inl TypeError"
| "getitem k (JBool b) = Inl TypeError"
| "getitem k (JNum n) = Inl TypeError"

text \<open>The entry of a key in the store, when the store is a dict that has the key.\<close>

fun entry :: "jval \<Rightarrow> string \<Rightarrow> jval option" where
  "entry (JObj kvs) k = map_of kvs k"
| "entry (JList xs) k = None"
| "entry (JStr s) k = None"
| "entry JNull k = None"
| "entry (JBool b) k = None"
| "entry (JNum n) k = None"

definition CAPTCHA_NOT_READY :: jval where
  "CAPTCHA_NOT_READY = JStr ''CAPTCHA_NOT_READY''"

text \<open>The two terminal representations written by the worker (lines 195 and 199).\<close>

definition solved :: "string \<Rightarrow> rat \<Rightarrow> jval" where
  "solved token elapsed_time = JObj [(''value'', JStr token), (''elapsed_time'', JNum elapsed_time)]"

definition failed :: "rat \<Rightarrow> jval" where
  "failed elapsed_time = JObj [(''value'', JStr ''CAPTCHA_FAIL''), (''elapsed_time'', JNum elapsed_time)]"

section \<open>The result endpoint\<close>

text \<open>
  \<open>get_result\<close> (lines 240-253) reads only \<open>self.results\<close>; it is given the query arguments
  and the result store, and returns the body and the status code, or the exception that
  leaves the handler: \<open>task_id not in self.results\<close> and \<open>self.results[task_id]\<close> raise on
  a store that is not a dict.
\<close>

definition invalid_task :: jval where
  "invalid_task = JObj [(''status'', JStr ''error''), (''error'', JStr ''Invalid task ID/Request parameter'')]"

definition get_result :: "(string \<rightharpoonup> string) \<Rightarrow> jval \<Rightarrow> error + (jval \<times> nat)" where
  "get_result args results =
     (let task_id = args ''id'' in
      if falsy task_id then Inr (invalid_task, 400)
      else (case py_in (the task_id) results of
              Inl e \<Rightarrow> Inl e
            | Inr known \<Rightarrow>
                if \<not> known then Inr (invalid_task, 400)
                else (case getitem (the task_id) results of
                        Inl e \<Rightarrow> Inl e
                      | Inr result \<Rightarrow>
                          (case py_in ''CAPTCHA_FAIL'' result of
                             Inl e \<Rightarrow> Inl e
                           | Inr b \<Rightarrow> Inr (result, if b then 422 else 200)))))"

section \<open>Proxy lines\<close>

text \<open>
  \<open>line.strip()\<close> removes leading and trailing whitespace; the characters below are the
  code points under 256 for which Python's \<open>str.isspace\<close> holds.
\<close>

definition whitespace :: "char \<Rightarrow> bool" where
  "whitespace c = ((of_char c :: nat) \<in> {9, 10, 11, 12, 13, 28, 29, 30, 31, 32, 133, 160})"

definition strip :: "string \<Rightarrow> string" where
  "strip s = rev (dropWhile whitespace (rev (dropWhile whitespace s)))"

text \<open>
  \<open>s.split(d)\<close> for a one-character separator: the fields between the separators, one
  more field than separators. \<open>field\<close> is the current field, reversed.
\<close>

fun split_from :: "char \<Rightarrow> string \<Rightarrow> string \<Rightarrow> string list" where
  "split_from d field [] = [rev field]"
| "split_from d field (c # cs) =
     (if c = d then rev field # split_from d [] cs else split_from d (c # field) cs)"

definition split_str :: "char \<Rightarrow> string \<Rightarrow> string list" where
  "split_str d s = split_from d [] s"

text \<open>Line 157: the candidate list, the stripped non-blank lines of \<open>proxies.txt\<close>.\<close>

definition read_proxies :: "string list \<Rightarrow> string list" where
  "read_proxies proxy_file = [strip line. line \<leftarrow> proxy_file, strip line \<noteq> []]"

text \<open>
  \<open>random.choice(seq)\<close> is \<open>seq[randbelow(len(seq))]\<close>. The input \<open>r\<close> is the value that
  \<open>randbelow\<close> returns, which the library draws equally likely among the numbers below the
  length; an index beyond the end raises \<open>IndexError\<close>.
\<close>

definition choice :: "nat \<Rightarrow> 'a list \<Rightarrow> error + 'a" where
  "choice r seq = (if r < length seq then Inr (seq ! r) else Inl IndexError)"

text \<open>Line 159.\<close>

definition select_proxy :: "nat \<Rightarrow> string list \<Rightarrow> error + string option" where
  "select_proxy r proxies =
     (if proxies \<noteq> [] then
        (case choice r proxies of Inl e \<Rightarrow> Inl e | Inr proxy \<Rightarrow> Inr (Some proxy))
      else Inr None)"

text \<open>The \<open>proxy\<close> argument given to \<open>browser.new_context\<close>.\<close>

datatype proxy_settings =
    NoProxy
  | Server string
  | ServerAuth string string string

text \<open>Lines 161-171: which context is asked for, or the \<open>ValueError\<close> of line 169.\<close>

definition context_options :: "string option \<Rightarrow> error + proxy_settings" where
  "context_options proxy =
     (case proxy of
        None \<Rightarrow> Inr NoProxy
      | Some p \<Rightarrow>
          if p = [] then Inr NoProxy
          else (let parts = split_str CHR '':'' p in
                if length parts = 3 then Inr (Server p)
                else if length parts = 5 then
                  Inr (ServerAuth (parts ! 0 @ ''://'' @ parts ! 1 @ '':'' @ parts ! 2)
                                  (parts ! 3) (parts ! 4))
                else Inl ValueError))"

section \<open>The staged page\<close>

definition url_with_slash :: "string \<Rightarrow> string" where
  "url_with_slash url = (if \<not> suffix ''/'' url then url @ ''/'' else url)"

definition recaptcha_div :: "string \<Rightarrow> string" where
  "recaptcha_div sitekey =
     ''<div class='' @ [CHR 0x22] @ ''g-recaptcha'' @ [CHR 0x22] @ '' data-sitekey='' @ [CHR 0x22]
       @ sitekey @ [CHR 0x22] @ ''></div>''"

text \<open>\<open>s.replace(old, new)\<close> for a non-empty \<open>old\<close>, as at its only call (line 186).\<close>

fun replace :: "string \<Rightarrow> string \<Rightarrow> string \<Rightarrow> string" where
  "replace old new [] = []"
| "replace old new (c # cs) =
     (if old \<noteq> [] \<and> prefix old (c # cs) then new @ replace old new (drop (length old - 1) cs)
      else c # replace old new cs)"

definition HTML_TEMPLATE :: string where
  "HTML_TEMPLATE =
     [CHR 0x0A] @ ''<!DOCTYPE html>'' @ [CHR 0x0A] @ ''<html>'' @ [CHR 0x0A] @ ''  <head>'' @ [CHR 0x0A]
     @ ''    <script src='' @ [CHR 0x22] @ ''https://www.google.com/recaptcha/enterprise.js'' @ [CHR 0x22]
     @ '' async defer></script>'' @ [CHR 0x0A] @ ''  </head>'' @ [CHR 0x0A] @ ''  <body>'' @ [CHR 0x0A]
     @ ''      <!-- recaptcha div --> '' @ [CHR 0x09, CHR 0x0A] @ ''  </body>'' @ [CHR 0x0A]
     @ ''</html>'' @ [CHR 0x0A] @ ''    ''"

definition page_data :: "string \<Rightarrow> string" where
  "page_data sitekey = replace ''<!-- recaptcha div -->'' (recaptcha_div sitekey) HTML_TEMPLATE"

section \<open>Time\<close>

text \<open>
  \<open>round(x, 3)\<close>: the nearest multiple of 1/1000, ties to the even one.
\<close>

definition round3 :: "rat \<Rightarrow> rat" where
  "round3 x =
     (let y = x * 1000; f = \<lfloor>y\<rfloor>; d = y - of_int f in
      of_int (if d < 1/2 then f else if 1/2 < d then f + 1 else if even f then f else f + 1) / 1000)"

section \<open>The server\<close>

datatype browser = Browser nat

type_synonym handle = "nat \<times> browser"

text \<open>
  A worker coroutine \<open>_solve_recaptcha\<close> is suspended at one of its \<open>await\<close>s, with the
  local variables bound so far: the handle \<open>(index, browser)\<close>, \<open>start_time\<close> and
  \<open>elapsed_time\<close>. At \<open>context.close()\<close> in the \<open>finally\<close> block the worker also carries
  the exception that left the \<open>except\<close> block, if any, to be raised again after line 206.
  \<open>Returned\<close> is the normal end. In \<open>RaisedBeforeTry e h\<close> an exception has left the
  coroutine from lines 153-175, before the \<open>try\<close>; in \<open>RaisedInFinally e h\<close> from
  \<open>context.close()\<close> at line 205. In both, \<open>h\<close> is the handle it had checked out. In
  \<open>RaisedAfterFinally e\<close> the exception of the \<open>except\<close> block has left the coroutine after
  the handle was put back.
\<close>

datatype frame =
    AtGet
  | AtNewContext handle
  | AtNewPage handle
  | AtRoute handle rat
  | AtGoto handle rat
  | AtSolve handle rat rat
  | AtClose handle "error option"
  | Returned
  | RaisedBeforeTry error handle
  | RaisedInFinally error handle
  | RaisedAfterFinally error

record task =
  task_id :: string
  url :: string
  sitekey :: string
  action :: "string option"
  min_score :: "string option"
  invisible :: "string option"
  enterprise :: "string option"
  data_s :: "string option"
  frame :: frame

text \<open>The calls on the external browser session and the returns to the pool, in order.\<close>

datatype call =
    NewContext nat proxy_settings
  | NewPage nat
  | PageRoute nat string string
  | PageGoto nat string
  | SolveRecaptcha nat
  | ContextClose nat
  | PoolPut nat

text \<open>
  The file \<open>results.json\<close>: absent, not readable, bytes that are not text in the encoding,
  text that is not JSON (such as a file cut short), or the text of a JSON value.
\<close>

datatype json_file = Missing | Unreadable | NotUnicode | Truncated | Contents jval

record server =
  proxy_support :: bool
  browser_type :: string
  thread_count :: int
  results :: jval
  results_json :: json_file
  browser_pool :: "handle list"
  tasks :: "task list"
  calls :: "call list"

text \<open>
  Lines 86-94: \<open>json.load\<close> returns whatever JSON value the file holds, a dict or not. A
  missing file, an \<open>IOError\<close> and a \<open>JSONDecodeError\<close> give the empty dict; a
  \<open>UnicodeDecodeError\<close> is not among the exceptions caught.
\<close>

definition load_results :: "json_file \<Rightarrow> error + jval" where
  "load_results f =
     (case f of
        Contents v \<Rightarrow> Inr v
      | Missing \<Rightarrow> Inr (JObj [])
      | Unreadable \<Rightarrow> Inr (JObj [])
      | Truncated \<Rightarrow> Inr (JObj [])
      | NotUnicode \<Rightarrow> Inl UnicodeDecodeError)"

text \<open>
  Lines 96-102. The write succeeds, or \<open>open\<close> raises (the file is as before), or the dump
  raises part-way (the file is cut short); both errors are caught and logged.
\<close>

datatype write_outcome = Written | OpenFails | DumpFails

definition save_results :: "write_outcome \<Rightarrow> server \<Rightarrow> server" where
  "save_results w s =
     (case w of
        Written \<Rightarrow> s\<lparr>results_json := Contents (results s)\<rparr>
      | OpenFails \<Rightarrow> s
      | DumpFails \<Rightarrow> s\<lparr>results_json := Truncated\<rparr>)"

text \<open>Lines 68-83; logging and the launch arguments are left out.\<close>

definition create_app :: "json_file \<Rightarrow> string \<Rightarrow> int \<Rightarrow> bool \<Rightarrow> error + server" where
  "create_app f bt thread proxy =
     (case load_results f of
        Inl e \<Rightarrow> Inl e
      | Inr loaded \<Rightarrow>
          Inr \<lparr>proxy_support = proxy, browser_type = bt, thread_count = thread,
               results = loaded, results_json = f, browser_pool = [], tasks = [], calls = []\<rparr>)"

text \<open>
  Lines 120-144. \<open>launch i\<close> is the browser that the \<open>i\<close>-th launch returns, or \<open>None\<close> when
  it raises. With a browser type that matches neither branch, \<open>browser\<close> is unbound at
  line 139.
\<close>

fun launch_loop :: "string \<Rightarrow> (nat \<Rightarrow> browser option) \<Rightarrow> nat list \<Rightarrow> handle list
    \<Rightarrow> error + handle list" where
  "launch_loop bt launch [] pool = Inr pool"
| "launch_loop bt launch (i # rest) pool =
     (if bt \<in> {''chromium'', ''chrome'', ''msedge''} \<or> bt = ''camoufox'' then
        (case launch i of
           None \<Rightarrow> Inl ExternalError
         | Some browser \<Rightarrow> launch_loop bt launch rest (pool @ [(i + 1, browser)]))
      else Inl UnboundLocalError)"

definition initialize_browser :: "bool \<Rightarrow> (nat \<Rightarrow> browser option) \<Rightarrow> server \<Rightarrow> error + server" where
  "initialize_browser start_ok launch s =
     (if browser_type s \<in> {''chromium'', ''chrome'', ''msedge''} \<and> \<not> start_ok then Inl ExternalError
      else (case launch_loop (browser_type s) launch [0..<nat (thread_count s)] (browser_pool s) of
              Inl e \<Rightarrow> Inl e
            | Inr pool \<Rightarrow> Inr (s\<lparr>browser_pool := pool\<rparr>)))"

text \<open>Lines 312-314 and 111-118: the application is made, then started before serving.\<close>

definition startup :: "json_file \<Rightarrow> string \<Rightarrow> int \<Rightarrow> bool \<Rightarrow> bool \<Rightarrow> (nat \<Rightarrow> browser option)
    \<Rightarrow> error + server" where
  "startup f bt thread proxy start_ok launch =
     (case create_app f bt thread proxy of
        Inl e \<Rightarrow> Inl e
      | Inr s \<Rightarrow> initialize_browser start_ok launch s)"

section \<open>Admission\<close>

definition both_required :: jval where
  "both_required =
     JObj [(''status'', JStr ''error''), (''error'', JStr ''Both 'url' and 'sitekey' are required'')]"

text \<open>
  \<open>process_recaptcha\<close> (lines 208-238) has no \<open>await\<close>: it runs in one piece. \<open>uuid4\<close> is the
  string of the identifier drawn; \<open>spawn_error\<close> is the message of the exception raised by
  \<open>asyncio.create_task\<close>, if any. Line 225 stands before the \<open>try\<close>: on a store that is
  not a dict its \<open>TypeError\<close> leaves the handler.
\<close>

definition process_recaptcha :: "string \<Rightarrow> string option \<Rightarrow> (string \<rightharpoonup> string) \<Rightarrow> server
    \<Rightarrow> (error + jval \<times> nat) \<times> server" where
  "process_recaptcha uuid4 spawn_error args s =
     (let url = args ''url''; sitekey = args ''sitekey''; action = args ''action'';
          min_score = args ''min_score''; invisible = args ''invisible'';
          enterprise = args ''enterprise''; data_s = args ''data-s''
      in
      if falsy url \<or> falsy sitekey then (Inr (both_required, 400), s)
      else
        (let task_id = uuid4 in
         case setitem task_id CAPTCHA_NOT_READY (results s) of
           Inl e \<Rightarrow> (Inl e, s)
         | Inr stored \<Rightarrow>
             (let s1 = s\<lparr>results := stored\<rparr> in
              case spawn_error of
                None \<Rightarrow>
                  (Inr (JObj [(''task_id'', JStr task_id)], 202),
                   s1\<lparr>tasks := tasks s1 @
                        [\<lparr>task_id = task_id, url = the url, sitekey = the sitekey,
                          action = action, min_score = min_score, invisible = invisible,
                          enterprise = enterprise, data_s = data_s, frame = AtGet\<rparr>]\<rparr>)
              | Some msg \<Rightarrow>
                  (Inr (JObj [(''status'', JStr ''error''), (''error'', JStr msg)], 500), s1))))"

section \<open>The worker\<close>

text \<open>
  What the outside world contributes when a suspended worker runs on: whether the awaited
  call returned (\<open>ok\<close>) or raised, the wall-clock time \<open>now\<close>, the token of the solver, the
  lines of \<open>proxies.txt\<close> (\<open>None\<close> when \<open>open\<close> raises), the value drawn by \<open>randbelow\<close>, and
  the outcome of writing \<open>results.json\<close>.
\<close>

record event =
  ok :: bool
  now :: rat
  token :: string
  proxy_file :: "string list option"
  draw :: nat
  save :: write_outcome

definition call :: "call \<Rightarrow> server \<Rightarrow> server" where
  "call c s = s\<lparr>calls := calls s @ [c]\<rparr>"

text \<open>Lines 153-173, run with the handle \<open>h\<close> just taken from the pool.\<close>

definition configure :: "event \<Rightarrow> handle \<Rightarrow> server \<Rightarrow> frame \<times> server" where
  "configure ev h s =
     (if proxy_support s then
        (case proxy_file ev of
           None \<Rightarrow> (RaisedBeforeTry OSError h, s)
         | Some lines \<Rightarrow>
             (case select_proxy (draw ev) (read_proxies lines) of
                Inl e \<Rightarrow> (RaisedBeforeTry e h, s)
              | Inr proxy \<Rightarrow>
                  (case context_options proxy of
                     Inl e \<Rightarrow> (RaisedBeforeTry e h, s)
                   | Inr opts \<Rightarrow> (AtNewContext h, call (NewContext (fst h) opts) s))))
      else (AtNewContext h, call (NewContext (fst h) NoProxy) s))"

text \<open>
  Lines 201-205: the \<open>finally\<close> block up to its \<open>await context.close()\<close>, entered with the
  exception that is on its way out, if any.
\<close>

definition finally_block :: "handle \<Rightarrow> error option \<Rightarrow> server \<Rightarrow> frame \<times> server" where
  "finally_block h pending s = (AtClose h pending, call (ContextClose (fst h)) s)"

text \<open>
  Lines 197-200: the \<open>except\<close> block, then \<open>finally\<close>. When line 199 raises, its exception
  goes out through \<open>finally\<close>.
\<close>

definition handler :: "event \<Rightarrow> string \<Rightarrow> handle \<Rightarrow> rat \<Rightarrow> server \<Rightarrow> frame \<times> server" where
  "handler ev tid h start_time s =
     (let elapsed_time = round3 (now ev - start_time) in
      case setitem tid (failed elapsed_time) (results s) of
        Inl e \<Rightarrow> finally_block h (Some e) s
      | Inr stored \<Rightarrow> finally_block h None (s\<lparr>results := stored\<rparr>))"

text \<open>
  One uninterrupted piece of \<open>_solve_recaptcha\<close> (lines 147-206): from the \<open>await\<close> the worker
  is suspended at to the next one. \<open>browser_pool.get()\<close> on an empty pool stays suspended;
  on a non-empty pool it takes the oldest entry. \<open>browser_pool.put\<close> never waits, the queue
  being unbounded. \<open>AsyncSolver\<close>'s enter and exit are taken not to suspend or raise.
\<close>

fun solve_recaptcha :: "event \<Rightarrow> string \<Rightarrow> string \<Rightarrow> string \<Rightarrow> frame \<Rightarrow> server \<Rightarrow> frame \<times> server" where
  "solve_recaptcha ev tid u k AtGet s =
     (case browser_pool s of
        [] \<Rightarrow> (AtGet, s)
      | h # rest \<Rightarrow> configure ev h (s\<lparr>browser_pool := rest\<rparr>))"
| "solve_recaptcha ev tid u k (AtNewContext h) s =
     (if ok ev then (AtNewPage h, call (NewPage (fst h)) s)
      else (RaisedBeforeTry ExternalError h, s))"
| "solve_recaptcha ev tid u k (AtNewPage h) s =
     (if ok ev then
        (AtRoute h (now ev), call (PageRoute (fst h) (url_with_slash u) (page_data k)) s)
      else (RaisedBeforeTry ExternalError h, s))"
| "solve_recaptcha ev tid u k (AtRoute h start_time) s =
     (if ok ev then (AtGoto h start_time, call (PageGoto (fst h) (url_with_slash u)) s)
      else handler ev tid h start_time s)"
| "solve_recaptcha ev tid u k (AtGoto h start_time) s =
     (if ok ev then
        (AtSolve h start_time (round3 (now ev - start_time)), call (SolveRecaptcha (fst h)) s)
      else handler ev tid h start_time s)"
| "solve_recaptcha ev tid u k (AtSolve h start_time elapsed_time) s =
     (if ok ev then
        (case setitem tid (solved (token ev) elapsed_time) (results s) of
           Inl e \<Rightarrow> handler ev tid h start_time s
         | Inr stored \<Rightarrow> finally_block h None (save_results (save ev) (s\<lparr>results := stored\<rparr>)))
      else handler ev tid h start_time s)"
| "solve_recaptcha ev tid u k (AtClose h pending) s =
     (if ok ev then
        (case pending of None \<Rightarrow> Returned | Some e \<Rightarrow> RaisedAfterFinally e,
         call (PoolPut (fst h)) (s\<lparr>browser_pool := browser_pool s @ [h]\<rparr>))
      else (RaisedInFinally ExternalError h, s))"
| "solve_recaptcha ev tid u k Returned s = (Returned, s)"
| "solve_recaptcha ev tid u k (RaisedBeforeTry e h) s = (RaisedBeforeTry e h, s)"
| "solve_recaptcha ev tid u k (RaisedInFinally e h) s = (RaisedInFinally e h, s)"
| "solve_recaptcha ev tid u k (RaisedAfterFinally e) s = (RaisedAfterFinally e, s)"

section \<open>The event loop\<close>

text \<open>
  The event loop is single-threaded: at each turn it either handles one \<open>GET /recaptcha\<close>
  request or lets one task run to its next \<open>await\<close>. A schedule is the list of these
  turns. \<open>GET /result\<close> changes nothing and is not a turn.
\<close>

datatype turn =
    Request string "string option" "string \<rightharpoonup> string"
  | Resume nat event

fun exec :: "turn \<Rightarrow> server \<Rightarrow> server" where
  "exec (Request uuid4 spawn_error args) s = snd (process_recaptcha uuid4 spawn_error args s)"
| "exec (Resume i ev) s =
     (if i < length (tasks s) then
        (let t = tasks s ! i;
             (f, s') = solve_recaptcha ev (task_id t) (url t) (sitekey t) (frame t) s
         in s'\<lparr>tasks := (tasks s')[i := t\<lparr>frame := f\<rparr>]\<rparr>)
      else s)"

definition run :: "turn list \<Rightarrow> server \<Rightarrow> server" where
  "run schedule s = fold exec schedule s"

section \<open>Notions used in the properties\<close>

text \<open>
  The handle a running worker has checked out, and the handle that went with a worker
  an exception has ended.
\<close>

fun holds :: "frame \<Rightarrow> handle list" where
  "holds AtGet = []"
| "holds (AtNewContext h) = [h]"
| "holds (AtNewPage h) = [h]"
| "holds (AtRoute h start_time) = [h]"
| "holds (AtGoto h start_time) = [h]"
| "holds (AtSolve h start_time elapsed_time) = [h]"
| "holds (AtClose h pending) = [h]"
| "holds Returned = []"
| "holds (RaisedBeforeTry e h) = []"
| "holds (RaisedInFinally e h) = []"
| "holds (RaisedAfterFinally e) = []"

fun lost :: "frame \<Rightarrow> handle list" where
  "lost (RaisedBeforeTry e h) = [h]"
| "lost (RaisedInFinally e h) = [h]"
| "lost AtGet = []"
| "lost (AtNewContext h) = []"
| "lost (AtNewPage h) = []"
| "lost (AtRoute h start_time) = []"
| "lost (AtGoto h start_time) = []"
| "lost (AtSolve h start_time elapsed_time) = []"
| "lost (AtClose h pending) = []"
| "lost Returned = []"
| "lost (RaisedAfterFinally e) = []"

definition checked_out :: "server \<Rightarrow> handle list" where
  "checked_out s = concat (map (\<lambda>t. holds (frame t)) (tasks s))"

definition leaked :: "server \<Rightarrow> handle list" where
  "leaked s = concat (map (\<lambda>t. lost (frame t)) (tasks s))"

text \<open>All handles: in the pool, checked out, or gone with a worker.\<close>

definition handles :: "server \<Rightarrow> handle multiset" where
  "handles s = mset (browser_pool s) + mset (checked_out s) + mset (leaked s)"

text \<open>A worker that waits at \<open>browser_pool.get()\<close> or has ended before its \<open>try\<close>.\<close>

fun blocked :: "frame \<Rightarrow> bool" where
  "blocked AtGet = True"
| "blocked (RaisedBeforeTry e h) = True"
| "blocked (AtNewContext h) = False"
| "blocked (AtNewPage h) = False"
| "blocked (AtRoute h start_time) = False"
| "blocked (AtGoto h start_time) = False"
| "blocked (AtSolve h start_time elapsed_time) = False"
| "blocked (AtClose h pending) = False"
| "blocked Returned = False"
| "blocked (RaisedInFinally e h) = False"
| "blocked (RaisedAfterFinally e) = False"

text \<open>A worker that has not reached line 195 or line 199.\<close>

fun unwritten :: "frame \<Rightarrow> bool" where
  "unwritten AtGet = True"
| "unwritten (AtNewContext h) = True"
| "unwritten (AtNewPage h) = True"
| "unwritten (AtRoute h start_time) = True"
| "unwritten (AtGoto h start_time) = True"
| "unwritten (AtSolve h start_time elapsed_time) = True"
| "unwritten (RaisedBeforeTry e h) = True"
| "unwritten (AtClose h pending) = False"
| "unwritten Returned = False"
| "unwritten (RaisedInFinally e h) = False"
| "unwritten (RaisedAfterFinally e) = False"

text \<open>The identifiers drawn by the requests of a schedule.\<close>

fun uuids :: "turn list \<Rightarrow> string list" where
  "uuids [] = []"
| "uuids (Request uuid4 spawn_error args # schedule) = uuid4 # uuids schedule"
| "uuids (Resume i ev # schedule) = uuids schedule"

text \<open>
  Task identifiers are pairwise different, and the entry of every worker that has not
  written yet is the pending one.
\<close>

definition pending_inv :: "server \<Rightarrow> bool" where
  "pending_inv s \<longleftrightarrow>
     distinct (map task_id (tasks s)) \<and>
     (\<forall>j < length (tasks s). unwritten (frame (tasks s ! j))
        \<longrightarrow> entry (results s) (task_id (tasks s ! j)) = Some CAPTCHA_NOT_READY)"

text \<open>A server state with the optional request parameters of every task forgotten.\<close>

definition forget_task :: "task \<Rightarrow> task" where
  "forget_task t =
     t\<lparr>action := None, min_score := None, invisible := None, enterprise := None, data_s := None\<rparr>"

definition forget :: "server \<Rightarrow> server" where
  "forget s = s\<lparr>tasks := map forget_task (tasks s)\<rparr>"

text \<open>
  The inputs used below: a server started with one Chrome session, a request for
  \<open>https://example.test\<close> with site key \<open>abc123\<close>, and events in which every awaited call
  returns.
\<close>

definition started :: "bool \<Rightarrow> server" where
  "started proxy =
     \<lparr>proxy_support = proxy, browser_type = ''chrome'', thread_count = 1, results = JObj [],
      results_json = Missing, browser_pool = [(1, Browser 0)], tasks = [], calls = []\<rparr>"

text \<open>Every launch returns a browser.\<close>

definition launched :: "nat \<Rightarrow> browser option" where
  "launched i = Some (Browser i)"



definition example_args :: "string \<rightharpoonup> string" where
  "example_args = [''url'' \<mapsto> ''https://example.test'', ''sitekey'' \<mapsto> ''abc123'']"

definition returns_at :: "rat \<Rightarrow> event" where
  "returns_at t = \<lparr>ok = True, now = t, token = ''tok-xyz'', proxy_file = None, draw = 0, save = Written\<rparr>"

definition raises_at :: "rat \<Rightarrow> event" where
  "raises_at t = \<lparr>ok = False, now = t, token = [], proxy_file = None, draw = 0, save = Written\<rparr>"

definition with_proxies :: "string list \<Rightarrow> event" where
  "with_proxies ls =
     \<lparr>ok = True, now = 0, token = ''tok-xyz'', proxy_file = Some ls, draw = 0, save = Written\<rparr>"

text \<open>
  With proxy support on and \<open>proxies.txt\<close> holding the single line \<open>10.0.0.3:3128\<close>
  (host and port, two fields), the first job is admitted and its worker runs.
\<close>

definition bad_proxy_run :: server where
  "bad_proxy_run =
     run [Request ''T'' None example_args, Resume 0 (with_proxies [''10.0.0.3:3128''])]
       (started True)"

text \<open>
  A job whose every awaited call returns: the page is ready at time 10 (\<open>start_time\<close>),
  \<open>page.goto\<close> returns at 10.1, the solver returns its token at 12.6, after 2.5 seconds,
  and the context is closed at 13.
\<close>

definition solved_schedule :: "turn list" where
  "solved_schedule =
     [Resume 0 (returns_at 0), Resume 0 (returns_at 0), Resume 0 (returns_at 10),
      Resume 0 (returns_at 10), Resume 0 (returns_at (101/10)), Resume 0 (returns_at (126/10)),
      Resume 0 (returns_at 13)]"

definition solved_run :: server where
  "solved_run = run (Request ''T'' None example_args # solved_schedule) (started False)"

text \<open>The same job when the solver raises at 12.6 instead.\<close>

definition failed_run :: server where
  "failed_run =
     run [Request ''T'' None example_args, Resume 0 (returns_at 0), Resume 0 (returns_at 0),
          Resume 0 (returns_at 10), Resume 0 (returns_at 10), Resume 0 (returns_at (101/10)),
          Resume 0 (raises_at (126/10)), Resume 0 (returns_at 13)]
       (started False)"

text \<open>The same job when its worker has just asked for a browsing context.\<close>

definition pending_schedule :: "turn list" where
  "pending_schedule = [Request ''T'' None example_args, Resume 0 (returns_at 0)]"

text \<open>The same request with all optional parameters given.\<close>

definition full_args :: "string \<rightharpoonup> string" where
  "full_args =
     example_args(''action'' \<mapsto> ''login'', ''min_score'' \<mapsto> ''0.9'', ''invisible'' \<mapsto> ''1'',
       ''enterprise'' \<mapsto> ''1'', ''data-s'' \<mapsto> ''xyz'')"

section \<open>Properties of the result endpoint\<close>

lemmas segment_defs = configure_def handler_def finally_block_def call_def save_results_def Let_def

lemma substring_not_ready: "\<not> substring ''CAPTCHA_FAIL'' ''CAPTCHA_NOT_READY''"
  by simp

lemma py_in_dict: "py_in k (JObj kvs) = Inr (map_of kvs k \<noteq> None)"
  by (simp add: map_of_eq_None_iff)

lemma get_result_unknown:
  "falsy (args ''id'') \<or> entry (JObj kvs) (the (args ''id'')) = None
   \<Longrightarrow> get_result args (JObj kvs) = Inr (invalid_task, 400)"
  by (auto simp: get_result_def Let_def py_in_dict simp del: py_in.simps)

lemma get_result_solved:
  "args ''id'' = Some t \<Longrightarrow> t \<noteq> [] \<Longrightarrow> entry (JObj kvs) t = Some (solved tok e)
   \<Longrightarrow> get_result args (JObj kvs) = Inr (solved tok e, 200)"
  by (simp add: get_result_def falsy_def py_in_dict del: py_in.simps) (simp add: solved_def)

lemma get_result_pending:
  "t \<noteq> [] \<Longrightarrow> entry rs t = Some (JStr ''CAPTCHA_NOT_READY'')
   \<Longrightarrow> get_result [''id'' \<mapsto> t] rs = Inr (JStr ''CAPTCHA_NOT_READY'', 200)"
  by (cases rs) (simp_all add: get_result_def falsy_def py_in_dict del: py_in.simps, simp)

text \<open>On a store that is \<open>null\<close>, line 244 raises.\<close>

lemma get_result_on_null:
  "\<not> falsy (args ''id'') \<Longrightarrow> get_result args JNull = Inl TypeError"
  by (simp add: get_result_def)

lemma failed_run_state:
  "results failed_run = JObj [(''T'', failed (13/5))] \<and> results_json failed_run = Missing \<and>
   browser_pool failed_run = [(1, Browser 0)]"
  by (simp add: failed_run_def run_def started_def example_args_def returns_at_def raises_at_def
      process_recaptcha_def falsy_def segment_defs round3_def)

text \<open>
  C1. For a job whose solver has raised, the worker stores the failure representation
  \<open>{"value": "CAPTCHA_FAIL", "elapsed_time": 2.6}\<close>, and \<open>GET /result\<close> with the identifier
  of that job answers with status 200, not 422: the test \<open>"CAPTCHA_FAIL" in result\<close> looks at
  the keys of the dict, which are \<open>value\<close> and \<open>elapsed_time\<close>.
\<close>

theorem get_result_failed_is_200:
  "results failed_run = JObj [(''T'', failed (13/5))] \<and>
   get_result [''id'' \<mapsto> ''T''] (results failed_run) = Inr (failed (13/5), 200)"
  by (simp add: failed_run_state) (simp add: get_result_def falsy_def failed_def)

section \<open>Proxy selection\<close>












section \<open>Admission of a job\<close>


lemma started_is_initialized:
  "startup Missing ''chrome'' 1 px True launched = Inr (started px)"
  by (simp add: startup_def initialize_browser_def create_app_def started_def load_results_def
      launched_def)





section \<open>Persistence of the result store\<close>

text \<open>
  C3, as stated, fails for the creation of a pending entry: after the admission of the
  first job on a server without \<open>results.json\<close> the result store has the entry and the file
  is still missing.
\<close>

theorem pending_entry_not_saved:
  "results (snd (process_recaptcha ''T'' None example_args (started False)))
     = JObj [(''T'', CAPTCHA_NOT_READY)] \<and>
   results_json (snd (process_recaptcha ''T'' None example_args (started False))) = Missing"
  by (simp add: process_recaptcha_def Let_def falsy_def example_args_def started_def)

text \<open>The \<open>except\<close> block (lines 197-200) does not call \<open>_save_results\<close> either.\<close>

lemma failure_not_saved:
  "results_json (snd (handler ev tid h start_time s)) = results_json s"
  by (simp add: handler_def finally_block_def call_def Let_def split: sum.splits)

text \<open>
  C3, amended. Recording a success in the result store, a dict, writes the whole store
  to \<open>results.json\<close> in the same uninterrupted piece of the worker, when the write
  succeeds; when \<open>open\<close> fails the file is as before. Creating a pending entry leaves the
  file as it is.
\<close>

theorem success_is_saved:
  "(ok ev \<and> save ev = Written \<and> results s = JObj kvs \<longrightarrow>
      results (snd (solve_recaptcha ev tid u k (AtSolve h start_time elapsed_time) s))
        = JObj (AList.update tid (solved (token ev) elapsed_time) kvs) \<and>
      results_json (snd (solve_recaptcha ev tid u k (AtSolve h start_time elapsed_time) s))
        = Contents (results (snd (solve_recaptcha ev tid u k (AtSolve h start_time elapsed_time) s)))) \<and>
   (ok ev \<and> save ev = OpenFails \<longrightarrow>
      results_json (snd (solve_recaptcha ev tid u k (AtSolve h start_time elapsed_time) s))
        = results_json s) \<and>
   results_json (snd (process_recaptcha uuid4 spawn_error args s)) = results_json s"
  by (auto simp: process_recaptcha_def Let_def handler_def finally_block_def call_def
      save_results_def split: option.splits sum.splits)

theorem success_is_saved_witness:
  "results_json (snd (solve_recaptcha (returns_at 3) ''T'' ''https://example.test'' ''abc123''
      (AtSolve (1, Browser 0) 0 (1/10)) (snd (process_recaptcha ''T'' None example_args (started False)))))
    = Contents (JObj [(''T'', solved ''tok-xyz'' (1/10))])"
  using success_is_saved [where ev = "returns_at 3"
      and s = "snd (process_recaptcha ''T'' None example_args (started False))"
      and kvs = "[(''T'', CAPTCHA_NOT_READY)]" and tid = "''T''" and u = "''https://example.test''"
      and k = "''abc123''" and h = "(1, Browser 0)" and start_time = 0 and elapsed_time = "1/10"]
  by (simp add: returns_at_def process_recaptcha_def Let_def falsy_def example_args_def started_def)

section \<open>The pool of browser sessions\<close>

text \<open>
  One piece of a worker moves a handle between the pool and the worker, or leaves it with
  a worker that an exception has ended; it never makes or copies one.
\<close>

lemma solve_recaptcha_frame_of_tasks:
  "tasks (snd (solve_recaptcha ev tid u k f s)) = tasks s"
  by (cases f) (auto simp: segment_defs split: list.splits option.splits sum.splits write_outcome.splits)

lemma solve_recaptcha_handles:
  "mset (browser_pool (snd (solve_recaptcha ev tid u k f s)))
     + mset (holds (fst (solve_recaptcha ev tid u k f s)))
     + mset (lost (fst (solve_recaptcha ev tid u k f s)))
   = mset (browser_pool s) + mset (holds f) + mset (lost f)"
  by (cases f) (auto simp: segment_defs split: list.splits option.splits sum.splits write_outcome.splits)

lemma mset_concat_update:
  "i < length ts \<Longrightarrow>
   mset (concat (map g (ts[i := t]))) + mset (g (ts ! i)) = mset (concat (map g ts)) + mset (g t)"
proof (induction ts arbitrary: i)
  case Nil
  then show ?case by simp
next
  case (Cons a ts)
  then show ?case by (cases i) (auto simp: algebra_simps)
qed

lemma mset_balance:
  fixes P :: "'a multiset"
  assumes "P' + H' + L' = P + H + L" and "C' + H = C + H'" and "K' + L = K + L'"
  shows "P' + C' + K' = P + C + K"
proof (rule multiset_eqI)
  fix x
  from assms(1) have "count (P' + H' + L') x = count (P + H + L) x" by simp
  moreover from assms(2) have "count (C' + H) x = count (C + H') x" by simp
  moreover from assms(3) have "count (K' + L) x = count (K + L') x" by simp
  ultimately show "count (P' + C' + K') x = count (P + C + K) x" by simp
qed

lemma exec_handles: "handles (exec turn s) = handles s"
proof (cases turn)
  case (Request uuid4 spawn_error args)
  then show ?thesis
    by (auto simp: handles_def checked_out_def leaked_def process_recaptcha_def Let_def
        split: option.splits sum.splits)
next
  case (Resume i ev)
  show ?thesis
  proof (cases "i < length (tasks s)")
    case False
    with Resume show ?thesis by simp
  next
    case True
    define t where "t = tasks s ! i"
    define r where "r = solve_recaptcha ev (task_id t) (url t) (sitekey t) (frame t) s"
    have ts: "tasks (snd r) = tasks s"
      by (simp add: r_def solve_recaptcha_frame_of_tasks)
    have ex: "exec turn s = (snd r)\<lparr>tasks := (tasks s)[i := t\<lparr>frame := fst r\<rparr>]\<rparr>"
      using Resume True ts by (simp add: t_def r_def Let_def case_prod_unfold)
    have seg: "mset (browser_pool (snd r)) + mset (holds (fst r)) + mset (lost (fst r))
                = mset (browser_pool s) + mset (holds (frame t)) + mset (lost (frame t))"
      unfolding r_def by (rule solve_recaptcha_handles)
    have h: "mset (concat (map (\<lambda>t. holds (frame t)) ((tasks s)[i := t\<lparr>frame := fst r\<rparr>]))) + mset (holds (frame t))
              = mset (checked_out s) + mset (holds (fst r))"
      using mset_concat_update [OF True, of "\<lambda>t. holds (frame t)" "t\<lparr>frame := fst r\<rparr>"]
      by (simp add: checked_out_def t_def)
    have l: "mset (concat (map (\<lambda>t. lost (frame t)) ((tasks s)[i := t\<lparr>frame := fst r\<rparr>]))) + mset (lost (frame t))
              = mset (leaked s) + mset (lost (fst r))"
      using mset_concat_update [OF True, of "\<lambda>t. lost (frame t)" "t\<lparr>frame := fst r\<rparr>"]
      by (simp add: leaked_def t_def)
    have "mset (browser_pool (snd r))
            + mset (concat (map (\<lambda>t. holds (frame t)) ((tasks s)[i := t\<lparr>frame := fst r\<rparr>])))
            + mset (concat (map (\<lambda>t. lost (frame t)) ((tasks s)[i := t\<lparr>frame := fst r\<rparr>])))
          = mset (browser_pool s) + mset (checked_out s) + mset (leaked s)"
      by (rule mset_balance [OF seg h l])
    then show ?thesis by (simp add: ex handles_def checked_out_def leaked_def)
  qed
qed

lemma run_handles: "handles (run schedule s) = handles s"
  unfolding run_def by (induction schedule arbitrary: s) (simp_all add: exec_handles)

lemma launch_loop_pool:
  "launch_loop bt launch js pool = Inr p \<Longrightarrow> map fst p = map fst pool @ map Suc js"
  by (induction js arbitrary: pool) (auto split: if_splits option.splits)

lemma initialize_browser_state:
  assumes "startup f bt n px start_ok launch = Inr s0"
  shows "map fst (browser_pool s0) = map Suc [0..<nat n]" and "tasks s0 = []"
  using assms launch_loop_pool [of bt launch "[0..<nat n]" "[]"]
  by (auto simp: startup_def initialize_browser_def create_app_def split: if_splits sum.splits)

text \<open>
  In every state the event loop can reach from a started server, the handles in the pool,
  those checked out by running workers and those gone with ended workers are pairwise
  different and together are the handles made at start-up: no handle is in two places,
  and at most \<open>thread_count\<close> are checked out.
\<close>

lemma pool_never_shared:
  assumes "startup f bt n px start_ok launch = Inr s0"
  shows "distinct (browser_pool (run schedule s0) @ checked_out (run schedule s0) @ leaked (run schedule s0))"
    and "length (browser_pool (run schedule s0)) + length (checked_out (run schedule s0))
           + length (leaked (run schedule s0)) = nat n"
    and "length (checked_out (run schedule s0)) \<le> nat n"
proof -
  let ?s = "run schedule s0"
  note m = initialize_browser_state(1) [OF assms]
  have l0: "length (browser_pool s0) = nat n"
    using arg_cong [OF m, of length] by simp
  have "distinct (map fst (browser_pool s0))"
    by (simp add: m distinct_map)
  then have d0: "distinct (browser_pool s0)"
    by (simp add: distinct_map)
  have "handles ?s = handles s0" by (rule run_handles)
  then have eq: "mset (browser_pool ?s @ checked_out ?s @ leaked ?s) = mset (browser_pool s0)"
    using initialize_browser_state(2) [OF assms]
    by (simp add: handles_def checked_out_def leaked_def add.assoc)
  show "distinct (browser_pool ?s @ checked_out ?s @ leaked ?s)"
    using d0 mset_eq_imp_distinct_iff [OF eq] by simp
  show len: "length (browser_pool ?s) + length (checked_out ?s) + length (leaked ?s) = nat n"
    using mset_eq_length [OF eq] l0 by simp
  then show "length (checked_out ?s) \<le> nat n" by simp
qed

text \<open>
  Once the \<open>try\<close> block is entered, every way out of it records an outcome and calls
  \<open>context.close()\<close>; when that call returns, the handle is put back at the end of the pool.
  When it raises, line 206 is not reached.
\<close>

lemma try_block_reaches_close:
  "\<not> ok ev \<Longrightarrow> f = AtRoute h st \<or> f = AtGoto h st \<or> f = AtSolve h st el \<Longrightarrow>
     (\<exists>pending. fst (solve_recaptcha ev tid u k f s) = AtClose h pending) \<and>
     calls (snd (solve_recaptcha ev tid u k f s)) = calls s @ [ContextClose (fst h)]"
  "ok ev \<Longrightarrow>
     (\<exists>pending. fst (solve_recaptcha ev tid u k (AtSolve h st el) s) = AtClose h pending) \<and>
     calls (snd (solve_recaptcha ev tid u k (AtSolve h st el) s)) = calls s @ [ContextClose (fst h)]"
  by (auto simp: segment_defs split: write_outcome.splits sum.splits)

lemma try_block_records:
  "\<not> ok ev \<Longrightarrow> f = AtRoute h st \<or> f = AtGoto h st \<or> f = AtSolve h st el \<Longrightarrow>
   results s = JObj kvs \<Longrightarrow>
     fst (solve_recaptcha ev tid u k f s) = AtClose h None \<and>
     entry (results (snd (solve_recaptcha ev tid u k f s))) tid = Some (failed (round3 (now ev - st)))"
  "ok ev \<Longrightarrow> results s = JObj kvs \<Longrightarrow>
     fst (solve_recaptcha ev tid u k (AtSolve h st el) s) = AtClose h None \<and>
     entry (results (snd (solve_recaptcha ev tid u k (AtSolve h st el) s))) tid
       = Some (solved (token ev) el)"
  by (auto simp: segment_defs update_conv' split: write_outcome.splits)

lemma close_then_put:
  "ok ev \<Longrightarrow> solve_recaptcha ev tid u k (AtClose h pending) s
     = (case pending of None \<Rightarrow> Returned | Some e \<Rightarrow> RaisedAfterFinally e,
        s\<lparr>browser_pool := browser_pool s @ [h], calls := calls s @ [PoolPut (fst h)]\<rparr>)"
  "\<not> ok ev \<Longrightarrow> solve_recaptcha ev tid u k (AtClose h pending) s
     = (RaisedInFinally ExternalError h, s)"
  by (simp_all add: call_def)

section \<open>A malformed proxy line\<close>

lemma entry_setitem:
  "setitem k' v rs = Inr rs' \<Longrightarrow> entry rs' k = (if k = k' then Some v else entry rs k)"
  by (cases rs) (auto simp: update_conv')

text \<open>
  When the pool is empty and every task waits for a handle or has ended before its
  \<open>try\<close>, no turn of the event loop changes that: the pool stays empty, no call is made,
  and a pending entry stays pending.
\<close>

lemma exec_starved:
  assumes "browser_pool s = []" and "list_all (\<lambda>t. blocked (frame t)) (tasks s)"
  shows "browser_pool (exec turn s) = [] \<and> list_all (\<lambda>t. blocked (frame t)) (tasks (exec turn s))
         \<and> calls (exec turn s) = calls s
         \<and> (entry (results s) k = Some CAPTCHA_NOT_READY
              \<longrightarrow> entry (results (exec turn s)) k = Some CAPTCHA_NOT_READY)"
proof (cases turn)
  case (Request uuid4 spawn_error args)
  then show ?thesis using assms
    by (auto simp: process_recaptcha_def Let_def entry_setitem split: option.splits sum.splits)
next
  case (Resume i ev)
  show ?thesis
  proof (cases "i < length (tasks s)")
    case False
    with Resume assms show ?thesis by simp
  next
    case True
    then have b: "blocked (frame (tasks s ! i))"
      using assms(2) by (simp add: list_all_length)
    have "solve_recaptcha ev tid u k' (frame (tasks s ! i)) s = (frame (tasks s ! i), s)" for tid u k'
      using b assms(1) by (cases "frame (tasks s ! i)") simp_all
    then have "exec turn s = s"
      using Resume True by (simp add: Let_def)
    with assms show ?thesis by simp
  qed
qed

lemma run_starved:
  assumes "browser_pool s = []" and "list_all (\<lambda>t. blocked (frame t)) (tasks s)"
  shows "browser_pool (run schedule s) = [] \<and> calls (run schedule s) = calls s
         \<and> (entry (results s) k = Some CAPTCHA_NOT_READY
              \<longrightarrow> entry (results (run schedule s)) k = Some CAPTCHA_NOT_READY)"
  using assms unfolding run_def
proof (induction schedule arbitrary: s)
  case Nil
  then show ?case by simp
next
  case (Cons turn schedule)
  from exec_starved [OF Cons.prems, of turn k]
  have 1: "browser_pool (exec turn s) = []"
    and 2: "list_all (\<lambda>t. blocked (frame t)) (tasks (exec turn s))"
    and 3: "calls (exec turn s) = calls s"
    and 4: "entry (results s) k = Some CAPTCHA_NOT_READY
              \<longrightarrow> entry (results (exec turn s)) k = Some CAPTCHA_NOT_READY"
    by simp_all
  from Cons.IH [OF 1 2] 3 4 show ?case by simp
qed

lemma bad_proxy_run_state:
  "bad_proxy_run =
     \<lparr>proxy_support = True, browser_type = ''chrome'', thread_count = 1,
      results = JObj [(''T'', CAPTCHA_NOT_READY)], results_json = Missing, browser_pool = [],
      tasks = [\<lparr>task_id = ''T'', url = ''https://example.test'', sitekey = ''abc123'',
                action = None, min_score = None, invisible = None, enterprise = None,
                data_s = None, frame = RaisedBeforeTry ValueError (1, Browser 0)\<rparr>],
      calls = []\<rparr>"
  by (simp add: bad_proxy_run_def run_def started_def example_args_def with_proxies_def
      process_recaptcha_def falsy_def segment_defs read_proxies_def strip_def whitespace_def
      select_proxy_def choice_def context_options_def split_str_def)

text \<open>
  C2. After the worker of the first job has raised \<open>ValueError\<close> at line 169 on the proxy
  line \<open>10.0.0.3:3128\<close>, the only handle is never in the pool again, whatever the event
  loop does afterwards: the exception leaves the coroutine before the \<open>try\<close>, so the
  \<open>finally\<close> block with \<open>browser_pool.put\<close> does not run.
\<close>

theorem handle_lost_for_good:
  "browser_pool (run schedule bad_proxy_run) = []"
  using run_starved [of bad_proxy_run schedule] by (simp add: bad_proxy_run_state)

text \<open>
  C4. After the same run the entry of job \<open>T\<close> is \<open>"CAPTCHA_NOT_READY"\<close> for ever and
  \<open>GET /result\<close> answers 200 with it: the \<open>except\<close> block that records \<open>CAPTCHA_FAIL\<close> is not
  reached. No call on a browser session is ever made again, so every later job waits at
  \<open>browser_pool.get()\<close>.
\<close>

theorem bad_proxy_job_stays_pending:
  "entry (results (run schedule bad_proxy_run)) ''T'' = Some CAPTCHA_NOT_READY \<and>
   get_result [''id'' \<mapsto> ''T''] (results (run schedule bad_proxy_run)) = Inr (CAPTCHA_NOT_READY, 200) \<and>
   calls (run schedule bad_proxy_run) = []"
proof -
  have "entry (results (run schedule bad_proxy_run)) ''T'' = Some CAPTCHA_NOT_READY"
    and c: "calls (run schedule bad_proxy_run) = []"
    using run_starved [of bad_proxy_run schedule "''T''"] by (simp_all add: bad_proxy_run_state)
  then show ?thesis
    using get_result_pending [of "''T''" "results (run schedule bad_proxy_run)"]
    by (simp add: CAPTCHA_NOT_READY_def)
qed

text \<open>
  C5. In the state after the same run, on a server started with one session, the handle
  \<open>(1, Browser 0)\<close> is neither in the pool nor checked out by a running worker: it went
  with the worker that raised.
\<close>

theorem handle_neither_pooled_nor_held:
  "startup Missing ''chrome'' 1 True True launched = Inr (started True) \<and>
   browser_pool bad_proxy_run = [] \<and> checked_out bad_proxy_run = [] \<and>
   leaked bad_proxy_run = [(1, Browser 0)]"
  by (simp add: started_is_initialized bad_proxy_run_state checked_out_def leaked_def)

section \<open>The elapsed time of a solved job\<close>

text \<open>
  \<open>elapsed_time\<close> is computed at line 192, when \<open>page.goto\<close> has returned and before the
  solver is awaited; line 195 stores that value.
\<close>

lemma elapsed_time_is_taken_before_solving:
  "ok ev \<Longrightarrow> fst (solve_recaptcha ev tid u k (AtGoto h st) s) = AtSolve h st (round3 (now ev - st))"
  by simp

lemma solved_run_state:
  "results solved_run = JObj [(''T'', solved ''tok-xyz'' (1/10))] \<and>
   results_json solved_run = Contents (JObj [(''T'', solved ''tok-xyz'' (1/10))]) \<and>
   browser_pool solved_run = [(1, Browser 0)]"
  by (simp add: solved_run_def solved_schedule_def run_def started_def example_args_def returns_at_def
      process_recaptcha_def falsy_def segment_defs round3_def)

text \<open>
  C6. For the job whose page is ready at 10, whose \<open>page.goto\<close> returns at 10.1 and whose
  solver returns at 12.6, the stored elapsed time is 0.1; the time from the start of the
  clock to the end of the solver call is 2.6.
\<close>

theorem solve_time_not_counted:
  "results solved_run = JObj [(''T'', solved ''tok-xyz'' (1/10))] \<and> round3 (126/10 - 10) = 13/5"
  by (simp add: solved_run_state) (simp add: round3_def Let_def)

section \<open>Pending entries\<close>

lemma solve_recaptcha_unwritten:
  "unwritten (fst (solve_recaptcha ev tid u k f s))
   \<Longrightarrow> unwritten f \<and> results (snd (solve_recaptcha ev tid u k f s)) = results s"
  by (cases f) (auto simp: segment_defs split: list.splits option.splits sum.splits write_outcome.splits if_splits)

lemma solve_recaptcha_other_keys:
  "k' \<noteq> tid \<Longrightarrow> entry (results (snd (solve_recaptcha ev tid u k f s))) k' = entry (results s) k'"
  by (cases f)
    (auto simp: segment_defs entry_setitem split: list.splits option.splits sum.splits write_outcome.splits)

lemma map_update_same: "(map f xs)[i := f (xs ! i)] = map f xs"
  by (cases "i < length xs") (simp_all add: list_update_same_conv list_update_beyond)

lemma exec_task_ids:
  "set (map task_id (tasks (exec turn s))) \<subseteq> set (map task_id (tasks s)) \<union> set (uuids [turn])"
proof (cases turn)
  case (Request uuid4 spawn_error args)
  then show ?thesis
    by (auto simp: process_recaptcha_def Let_def split: option.splits sum.splits)
next
  case (Resume i ev)
  have "map task_id (tasks (exec turn s)) = map task_id (tasks s)"
    using Resume
    by (simp add: Let_def case_prod_unfold solve_recaptcha_frame_of_tasks map_update map_update_same)
  then have "set (map task_id (tasks (exec turn s))) = set (map task_id (tasks s))"
    by (rule arg_cong)
  then show ?thesis by blast
qed

lemma exec_pending_inv:
  assumes "pending_inv s" and "set (uuids [turn]) \<inter> set (map task_id (tasks s)) = {}"
  shows "pending_inv (exec turn s)"
proof (cases turn)
  case (Request uuid4 spawn_error args)
  have fresh: "uuid4 \<notin> task_id ` set (tasks s)"
    using assms(2) Request by auto
  have old: "j < length (tasks s) \<Longrightarrow> task_id (tasks s ! j) \<noteq> uuid4" for j
    using fresh by (metis image_eqI nth_mem)
  show ?thesis
    using assms(1) fresh old unfolding pending_inv_def Request
    by (auto simp: process_recaptcha_def Let_def entry_setitem nth_append
        split: option.splits sum.splits)
next
  case (Resume i ev)
  show ?thesis
  proof (cases "i < length (tasks s)")
    case False
    with Resume assms show ?thesis by simp
  next
    case True
    define t where "t = tasks s ! i"
    define r where "r = solve_recaptcha ev (task_id t) (url t) (sitekey t) (frame t) s"
    have ts: "tasks (snd r) = tasks s"
      by (simp add: r_def solve_recaptcha_frame_of_tasks)
    have ex: "exec turn s = (snd r)\<lparr>tasks := (tasks s)[i := t\<lparr>frame := fst r\<rparr>]\<rparr>"
      using Resume True ts by (simp add: t_def r_def Let_def case_prod_unfold)
    have ids: "map task_id ((tasks s)[i := t\<lparr>frame := fst r\<rparr>]) = map task_id (tasks s)"
      by (simp add: map_update map_update_same t_def)
    have d: "distinct (map task_id (tasks s))"
      using assms(1) by (simp add: pending_inv_def)
    have "entry (results (snd r)) (task_id (((tasks s)[i := t\<lparr>frame := fst r\<rparr>]) ! j)) = Some CAPTCHA_NOT_READY"
      if j: "j < length (tasks s)" and u: "unwritten (frame (((tasks s)[i := t\<lparr>frame := fst r\<rparr>]) ! j))" for j
    proof (cases "j = i")
      case True
      with u j have "unwritten (fst r)" by simp
      then have "unwritten (frame t)" and "results (snd r) = results s"
        using solve_recaptcha_unwritten [of ev "task_id t" "url t" "sitekey t" "frame t" s]
        by (simp_all add: r_def)
      with assms(1) \<open>j = i\<close> j show ?thesis
        by (simp add: pending_inv_def t_def)
    next
      case False
      then have "task_id (tasks s ! j) \<noteq> task_id t"
        using d j True nth_eq_iff_index_eq [of "map task_id (tasks s)" j i]
        by (simp add: t_def)
      then have "entry (results (snd r)) (task_id (tasks s ! j)) = entry (results s) (task_id (tasks s ! j))"
        unfolding r_def by (rule solve_recaptcha_other_keys)
      with assms(1) False j u show ?thesis
        by (simp add: pending_inv_def)
    qed
    with d ids show ?thesis
      by (simp add: pending_inv_def ex)
  qed
qed

lemma run_pending_inv:
  assumes "pending_inv s" and "distinct (uuids schedule)"
    and "set (uuids schedule) \<inter> set (map task_id (tasks s)) = {}"
  shows "pending_inv (run schedule s) \<and>
         set (map task_id (tasks (run schedule s))) \<subseteq> set (map task_id (tasks s)) \<union> set (uuids schedule)"
  using assms unfolding run_def
proof (induction schedule arbitrary: s)
  case Nil
  then show ?case by simp
next
  case (Cons turn schedule)
  have u: "uuids (turn # schedule) = uuids [turn] @ uuids schedule"
    by (cases turn) simp_all
  have 1: "pending_inv (exec turn s)"
    using Cons.prems u by (intro exec_pending_inv) auto
  have sub: "set (map task_id (tasks (exec turn s))) \<subseteq> set (map task_id (tasks s)) \<union> set (uuids [turn])"
    by (rule exec_task_ids)
  have 2: "distinct (uuids schedule)"
    using Cons.prems(2) u by simp
  have a: "set (uuids schedule) \<inter> set (map task_id (tasks s)) = {}"
    using Cons.prems(3) u by auto
  have b: "set (uuids schedule) \<inter> set (uuids [turn]) = {}"
    using Cons.prems(2) u by auto
  from a b sub have 3: "set (uuids schedule) \<inter> set (map task_id (tasks (exec turn s))) = {}"
    by blast
  note ih = Cons.IH [OF 1 2 3]
  have us: "set (uuids (turn # schedule)) = set (uuids [turn]) \<union> set (uuids schedule)"
    using u by simp
  from ih [THEN conjunct2] sub us
  have "set (map task_id (tasks (fold exec schedule (exec turn s))))
          \<subseteq> set (map task_id (tasks s)) \<union> set (uuids (turn # schedule))"
    by blast
  with ih [THEN conjunct1] show ?case by simp
qed

text \<open>
  C10. On a server started by \<open>create_app\<close> and \<open>_initialize_browser\<close>, with pairwise
  different, non-empty identifiers drawn, in every state the event loop can reach: for
  every task whose worker has not yet written an outcome, the stored value is the bare
  string \<open>"CAPTCHA_NOT_READY"\<close> and \<open>GET /result\<close> with its identifier answers that string
  with status 200.
\<close>

theorem pending_until_written:
  assumes "startup f bt n px start_ok launch = Inr s0"
    and "distinct (uuids schedule)" and "[] \<notin> set (uuids schedule)"
    and "t \<in> set (tasks (run schedule s0))" and "unwritten (frame t)"
  shows "entry (results (run schedule s0)) (task_id t) = Some (JStr ''CAPTCHA_NOT_READY'') \<and>
         get_result [''id'' \<mapsto> task_id t] (results (run schedule s0))
           = Inr (JStr ''CAPTCHA_NOT_READY'', 200)"
proof -
  have e: "tasks s0 = []"
    by (rule initialize_browser_state(2) [OF assms(1)])
  then have "pending_inv s0"
    by (simp add: pending_inv_def)
  with e assms(2) have inv: "pending_inv (run schedule s0)"
    and ids: "set (map task_id (tasks (run schedule s0))) \<subseteq> set (uuids schedule)"
    using run_pending_inv [of s0 schedule] by simp_all
  obtain j where j: "j < length (tasks (run schedule s0))" "tasks (run schedule s0) ! j = t"
    using assms(4) by (auto simp: in_set_conv_nth)
  with inv assms(5) have p: "entry (results (run schedule s0)) (task_id t) = Some (JStr ''CAPTCHA_NOT_READY'')"
    by (auto simp: pending_inv_def CAPTCHA_NOT_READY_def)
  have "task_id t \<in> set (uuids schedule)"
    using ids assms(4) by auto
  with assms(3) have "task_id t \<noteq> []" by auto
  with p show ?thesis
    using get_result_pending [of "task_id t" "results (run schedule s0)"] by simp
qed

lemma pending_run_tasks:
  "tasks (run pending_schedule (started False)) =
     [\<lparr>task_id = ''T'', url = ''https://example.test'', sitekey = ''abc123'', action = None,
       min_score = None, invisible = None, enterprise = None, data_s = None,
       frame = AtNewContext (1, Browser 0)\<rparr>]"
  by (simp add: pending_schedule_def run_def started_def example_args_def returns_at_def
      process_recaptcha_def falsy_def segment_defs)

theorem pending_until_written_witness:
  "get_result [''id'' \<mapsto> ''T''] (results (run pending_schedule (started False)))
     = Inr (JStr ''CAPTCHA_NOT_READY'', 200)"
  using pending_until_written [OF started_is_initialized [of False], of pending_schedule
      "\<lparr>task_id = ''T'', url = ''https://example.test'', sitekey = ''abc123'', action = None,
        min_score = None, invisible = None, enterprise = None, data_s = None,
        frame = AtNewContext (1, Browser 0)\<rparr>"]
  by (simp add: pending_run_tasks) (simp add: pending_schedule_def)

section \<open>The optional request parameters\<close>

lemma solve_recaptcha_tasks_update:
  "solve_recaptcha ev tid u k f (s\<lparr>tasks := ts\<rparr>)
     = (fst (solve_recaptcha ev tid u k f s), (snd (solve_recaptcha ev tid u k f s))\<lparr>tasks := ts\<rparr>)"
  by (cases f) (auto simp: segment_defs split: list.splits option.splits sum.splits write_outcome.splits)

lemma forget_task_idem: "forget_task (forget_task t) = forget_task t"
  by (simp add: forget_task_def)

lemma forget_task_comp: "forget_task \<circ> forget_task = forget_task"
  by (simp add: fun_eq_iff forget_task_idem)

lemma forget_task_fields:
  "task_id (forget_task t) = task_id t" "url (forget_task t) = url t"
  "sitekey (forget_task t) = sitekey t" "frame (forget_task t) = frame t"
  "forget_task (t\<lparr>frame := f\<rparr>) = (forget_task t)\<lparr>frame := f\<rparr>"
  by (simp_all add: forget_task_def)

lemma forget_exec: "forget (exec turn (forget s)) = forget (exec turn s)"
proof (cases turn)
  case (Request uuid4 spawn_error args)
  then show ?thesis
    by (auto simp: forget_def process_recaptcha_def Let_def forget_task_idem
        split: option.splits sum.splits)
next
  case (Resume i ev)
  show ?thesis
  proof (cases "i < length (tasks s)")
    case False
    with Resume show ?thesis by (simp add: forget_def forget_task_idem)
  next
    case True
    then show ?thesis using Resume
      by (simp add: forget_def Let_def case_prod_unfold solve_recaptcha_tasks_update
          solve_recaptcha_frame_of_tasks forget_task_fields forget_task_idem forget_task_comp
          map_update)
  qed
qed

lemma forget_run: "forget (run schedule (forget s)) = forget (run schedule s)"
  unfolding run_def
proof (induction schedule arbitrary: s)
  case Nil
  show ?case by (simp add: forget_def forget_task_idem)
next
  case (Cons turn schedule)
  have "forget (fold exec schedule (exec turn (forget s)))
          = forget (fold exec schedule (forget (exec turn (forget s))))"
    by (simp add: Cons.IH)
  also have "\<dots> = forget (fold exec schedule (forget (exec turn s)))"
    by (simp add: forget_exec)
  also have "\<dots> = forget (fold exec schedule (exec turn s))"
    by (simp add: Cons.IH)
  finally show ?case by simp
qed

lemma process_recaptcha_forget:
  assumes "args1 ''url'' = args2 ''url''" and "args1 ''sitekey'' = args2 ''sitekey''"
  shows "fst (process_recaptcha uuid4 spawn_error args1 s) = fst (process_recaptcha uuid4 spawn_error args2 s)"
    and "forget (snd (process_recaptcha uuid4 spawn_error args1 s))
           = forget (snd (process_recaptcha uuid4 spawn_error args2 s))"
  using assms
  by (auto simp: process_recaptcha_def Let_def forget_def forget_task_def
      split: option.splits sum.splits)

text \<open>
  C9. Two admissions in the same server state, with the same identifier drawn, that agree
  on \<open>url\<close> and \<open>sitekey\<close> get the same response, and after any schedule of the event loop
  the result store, \<open>results.json\<close>, the pool, the calls made on the browser sessions and
  the positions of all workers are the same.
\<close>

theorem optional_parameters_ignored:
  assumes "args1 ''url'' = args2 ''url''" and "args1 ''sitekey'' = args2 ''sitekey''"
  shows "fst (process_recaptcha uuid4 spawn_error args1 s)
           = fst (process_recaptcha uuid4 spawn_error args2 s) \<and>
         results (run schedule (snd (process_recaptcha uuid4 spawn_error args1 s)))
           = results (run schedule (snd (process_recaptcha uuid4 spawn_error args2 s))) \<and>
         results_json (run schedule (snd (process_recaptcha uuid4 spawn_error args1 s)))
           = results_json (run schedule (snd (process_recaptcha uuid4 spawn_error args2 s))) \<and>
         browser_pool (run schedule (snd (process_recaptcha uuid4 spawn_error args1 s)))
           = browser_pool (run schedule (snd (process_recaptcha uuid4 spawn_error args2 s))) \<and>
         calls (run schedule (snd (process_recaptcha uuid4 spawn_error args1 s)))
           = calls (run schedule (snd (process_recaptcha uuid4 spawn_error args2 s))) \<and>
         map frame (tasks (run schedule (snd (process_recaptcha uuid4 spawn_error args1 s))))
           = map frame (tasks (run schedule (snd (process_recaptcha uuid4 spawn_error args2 s))))"
proof -
  let ?a = "snd (process_recaptcha uuid4 spawn_error args1 s)"
  let ?b = "snd (process_recaptcha uuid4 spawn_error args2 s)"
  have "forget (run schedule ?a) = forget (run schedule (forget ?a))"
    by (simp add: forget_run)
  also have "\<dots> = forget (run schedule (forget ?b))"
    by (simp add: process_recaptcha_forget(2) [OF assms])
  also have "\<dots> = forget (run schedule ?b)"
    by (simp add: forget_run)
  finally have eq: "forget (run schedule ?a) = forget (run schedule ?b)" .
  have obs: "results x = results (forget x)" "results_json x = results_json (forget x)"
    "browser_pool x = browser_pool (forget x)" "calls x = calls (forget x)"
    "map frame (tasks x) = map frame (tasks (forget x))" for x
    by (simp_all add: forget_def forget_task_fields)
  show ?thesis
    using process_recaptcha_forget(1) [OF assms] obs [of "run schedule ?a"] obs [of "run schedule ?b"] eq
    by simp
qed

theorem optional_parameters_ignored_witness:
  "results (run solved_schedule (snd (process_recaptcha ''T'' None full_args (started False))))
     = JObj [(''T'', solved ''tok-xyz'' (1/10))] \<and>
   fst (process_recaptcha ''T'' None full_args (started False))
     = Inr (JObj [(''task_id'', JStr ''T'')], 202)"
proof -
  have a: "example_args ''url'' = full_args ''url''" and b: "example_args ''sitekey'' = full_args ''sitekey''"
    by (simp_all add: full_args_def)
  have r: "run solved_schedule (snd (process_recaptcha ''T'' None example_args (started False))) = solved_run"
    by (simp add: solved_run_def run_def)
  have f: "fst (process_recaptcha ''T'' None example_args (started False))
             = Inr (JObj [(''task_id'', JStr ''T'')], 202)"
    by (simp add: process_recaptcha_def example_args_def falsy_def Let_def started_def)
  from optional_parameters_ignored [OF a b, of "''T''" None "started False" solved_schedule]
  show ?thesis
    by (simp add: r f solved_run_state)
qed

end
